theory Spec2Isabelle
  imports Main "HOL-Library.Extended_Nat"
begin

section \<open>Transitionable: data model\<close>

text \<open>
  The development embeds \<^verbatim>\<open>src/core/Transitionable.js\<close>. One instance is a record
  of its fields; every method takes the record and returns the updated one.

  A value is what \<^verbatim>\<open>state\<close> may hold: a number, an array of numbers, or an object
  keyed by names. Transitionable never computes on the numbers, it only stores and
  forwards them. The transition record below names its velocity field \<open>t_velocity\<close>,
  since the instance has a field \<^verbatim>\<open>velocity\<close> of its own.
\<close>

datatype val = Num real | Arr "real list" | Obj "(string \<times> real) list"

text \<open>
  An engine class (\<^verbatim>\<open>TweenTransition\<close>, or any constructor handed to
  \<^verbatim>\<open>register\<close>). Classes are compared by identity (\<^verbatim>\<open>!==\<close>).
\<close>

datatype engineClass = TweenTransition | EngineClass nat

text \<open>
  \<^verbatim>\<open>transition.curve\<close> is a name or a function. Used as a property key of
  \<^verbatim>\<open>transitionMethods\<close> a function is converted to its source text, which the
  model carries.
\<close>

datatype curve = CurveName string | CurveFn string

record transition =
  duration :: "real option"
  curve :: "curve option"
  t_velocity :: "val option"

text \<open>
  \<^verbatim>\<open>iterate\<close> takes either one shared transition or an array of them; an
  omitted (falsy) transition is \<open>None\<close>.
\<close>

datatype transitions = Shared "transition option" | PerStep "transition option list"

text \<open>
  A completion callback is either a function of the caller, known by an identifier and
  recorded when it is called, or the closure that \<^verbatim>\<open>iterate\<close> builds (lines 265-267),
  which captures \<^verbatim>\<open>values\<close>, \<^verbatim>\<open>transitions\<close> and \<^verbatim>\<open>callback\<close>.
\<close>

datatype callback = Opaque nat | IterCont "val list" transitions "callback option"

datatype STATE = NONE | START | UPDATE | END

text \<open>
  The calls an instance makes on its collaborators, in the order made: the ticker
  (\<^verbatim>\<open>Clock.register\<close>, \<^verbatim>\<open>Clock.unregister\<close>), the event output (\<^verbatim>\<open>emit\<close>), a
  caller's callback, and the commands sent to an engine (construction, where the flag
  says that the class was wrapped in \<^verbatim>\<open>MultipleTransition\<close>, \<^verbatim>\<open>reset\<close> and
  \<^verbatim>\<open>set\<close>).
\<close>

datatype event =
    ClockRegister
  | ClockUnregister
  | Emit string val
  | Call nat
  | EngineNew engineClass bool
  | EngineReset val "val option"
  | EngineSet val transition

text \<open>
  The two closures pushed on \<^verbatim>\<open>dirtyQueue\<close>: the one of \<^verbatim>\<open>set\<close> (lines 165-170)
  and the one of \<^verbatim>\<open>update\<close> (lines 218-229).
\<close>

datatype deferred = SetCleanup | UpdateTerminal

datatype error = TypeError

text \<open>
  The engine contract. Engines are collaborators whose code is not part of the file;
  their behaviour is a parameter: \<open>'e\<close> is the internal state of an engine instance.
  Sampling (\<^verbatim>\<open>get\<close>) may change that state.
\<close>

record 'e engine_ops =
  new_method :: "engineClass \<Rightarrow> 'e"
  new_MultipleTransition :: "engineClass \<Rightarrow> 'e"
  SUPPORTS_MULTIPLE :: "engineClass \<Rightarrow> enat"
  eng_reset :: "val \<Rightarrow> val option \<Rightarrow> 'e \<Rightarrow> 'e"
  eng_getVelocity :: "'e \<Rightarrow> val option"
  eng_set :: "val \<Rightarrow> transition \<Rightarrow> 'e \<Rightarrow> 'e"
  eng_get :: "'e \<Rightarrow> val \<times> 'e"
  eng_isActive :: "'e \<Rightarrow> bool"

text \<open>
  The instance. Fields written \<^verbatim>\<open>_x\<close> in the source are \<open>priv_x\<close> here. The last
  three fields are the instance's footprint outside itself: the start values of the
  closures its constructor has pushed on \<^verbatim>\<open>nextTickQueue\<close>, the closures it has
  pushed on \<^verbatim>\<open>dirtyQueue\<close> that have not run yet, and the calls made so far.
\<close>

record 'e transitionable =
  transitionQueue :: "transition list"
  endStateQueue :: "val list"
  callbackQueue :: "callback option list"
  state :: val
  velocity :: "val option"
  priv_callback :: "callback option"
  priv_engineInstance :: "'e option"
  priv_currentMethod :: "engineClass option"
  priv_state :: STATE
  priv_dirty :: bool
  nextTickQueue :: "val list"
  dirtyQueue :: "deferred list"
  trace :: "event list"

section \<open>The engine registry\<close>

text \<open>
  \<^verbatim>\<open>transitionMethods\<close> is a module-level object used as a dictionary from names to
  engine classes; the model is the map of the properties stored in it.
\<close>

type_synonym registry = "string \<rightharpoonup> engineClass"



section \<open>The instance\<close>

text \<open>
  The constructor (lines 42-73). \<^verbatim>\<open>start || 0\<close> replaces a missing start by 0 (and
  the only falsy value of type \<open>val\<close>, the number 0, by itself). With a start value
  the constructor pushes a closure on \<^verbatim>\<open>nextTickQueue\<close>. The two handlers it
  subscribes (lines 57-63) pass \<^verbatim>\<open>start\<close> and \<^verbatim>\<open>end\<close> on to the ticker as
  \<^verbatim>\<open>dirty\<close> and \<^verbatim>\<open>clean\<close>; they do not touch the instance and are not traced.
\<close>

definition Transitionable :: "val option \<Rightarrow> 'e transitionable" where
  "Transitionable start =
     \<lparr> transitionQueue = [], endStateQueue = [], callbackQueue = [],
       state = (case start of None \<Rightarrow> Num 0 | Some v \<Rightarrow> v),
       velocity = None, priv_callback = None, priv_engineInstance = None,
       priv_currentMethod = None, priv_state = NONE, priv_dirty = False,
       nextTickQueue = (case start of None \<Rightarrow> [] | Some v \<Rightarrow> [v]),
       dirtyQueue = [], trace = [] \<rparr>"

definition get :: "'e transitionable \<Rightarrow> val" where
  "get s = state s"

definition isActive :: "'e transitionable \<Rightarrow> bool" where
  "isActive s = (priv_state s = UPDATE)"

text \<open>
  \<^verbatim>\<open>reset\<close> (lines 241-252) and \<^verbatim>\<open>halt\<close> (lines 310-322) send \<^verbatim>\<open>reset\<close> to the
  engine, with one argument, and then drop the engine.
\<close>

definition reset :: "val \<Rightarrow> val option \<Rightarrow> 'e transitionable \<Rightarrow> 'e transitionable" where
  "reset startState startVelocity s =
     s\<lparr> trace := (case priv_engineInstance s of
                     None \<Rightarrow> trace s
                   | Some _ \<Rightarrow> trace s @ [EngineReset startState None]),
        priv_currentMethod := None,
        priv_engineInstance := None,
        state := startState,
        velocity := startVelocity,
        endStateQueue := [],
        transitionQueue := [],
        callbackQueue := [] \<rparr>"

definition halt :: "'e transitionable \<Rightarrow> 'e transitionable" where
  "halt s =
     (let currentState = get s in
      s\<lparr> trace := (case priv_engineInstance s of
                      None \<Rightarrow> trace s
                    | Some _ \<Rightarrow> trace s @ [EngineReset currentState None]),
         priv_currentMethod := None,
         priv_engineInstance := None,
         state := currentState,
         velocity := None,
         endStateQueue := [],
         transitionQueue := [],
         callbackQueue := [] \<rparr>)"

subsection \<open>The loader\<close>

text \<open>
  Line 107: \<^verbatim>\<open>curve && transitionMethods[curve]\<close>. The empty name is falsy, a function
  is truthy.
\<close>

fun curve_truthy :: "curve \<Rightarrow> bool" where
  "curve_truthy (CurveName n) = (n \<noteq> [])"
| "curve_truthy (CurveFn src) = True"

fun curve_key :: "curve \<Rightarrow> string" where
  "curve_key (CurveName n) = n"
| "curve_key (CurveFn src) = src"

definition select_method :: "registry \<Rightarrow> transition \<Rightarrow> engineClass" where
  "select_method transitionMethods tr =
     (case curve tr of
        None \<Rightarrow> TweenTransition
      | Some c \<Rightarrow>
          (if curve_truthy c
           then (case transitionMethods (curve_key c) of
                   Some m \<Rightarrow> m
                 | None \<Rightarrow> TweenTransition)
           else TweenTransition))"

text \<open>
  Line 112: \<^verbatim>\<open>typeof endValue === 'number' || endValue.length <= method.SUPPORTS_MULTIPLE\<close>.
  An array has its length; an object has a \<^verbatim>\<open>length\<close> only as one of its keys, and
  without it the comparison with \<^verbatim>\<open>undefined\<close> is false.
\<close>

fun js_le :: "real \<Rightarrow> enat \<Rightarrow> bool" where
  "js_le x (enat k) = (x \<le> real k)"
| "js_le x \<infinity> = True"

fun single_engine :: "val \<Rightarrow> enat \<Rightarrow> bool" where
  "single_engine (Num x) limit = True"
| "single_engine (Arr xs) limit = js_le (real (length xs)) limit"
| "single_engine (Obj kvs) limit =
     (case map_of kvs ''length'' of None \<Rightarrow> False | Some n \<Rightarrow> js_le n limit)"

text \<open>
  \<^verbatim>\<open>_loadNext\<close> (lines 99-126). \<^verbatim>\<open>shift\<close> on an empty array returns
  \<^verbatim>\<open>undefined\<close>: for the transition the next line (\<^verbatim>\<open>transition.curve\<close>) then throws,
  for the callback it is the value stored. A method call on a null engine throws.
  The function is also the completion hook handed to the engine on line 125.
\<close>

definition loadNext ::
  "registry \<Rightarrow> 'e engine_ops \<Rightarrow> 'e transitionable \<Rightarrow> error + 'e transitionable" where
  "loadNext transitionMethods ops s =
     (case endStateQueue s of
        [] \<Rightarrow> Inr s
      | endValue # endStates \<Rightarrow>
          (case transitionQueue s of
             [] \<Rightarrow> Inl TypeError
           | tr # trs \<Rightarrow>
               (let s1 = s\<lparr> endStateQueue := endStates,
                             transitionQueue := trs,
                             callbackQueue := tl (callbackQueue s),
                             priv_callback := (case callbackQueue s of [] \<Rightarrow> None | c # _ \<Rightarrow> c) \<rparr>;
                    method = select_method transitionMethods tr;
                    s2 = (if priv_currentMethod s1 \<noteq> Some method
                          then (if single_engine endValue (SUPPORTS_MULTIPLE ops method)
                                then s1\<lparr> priv_engineInstance := Some (new_method ops method),
                                         priv_currentMethod := Some method,
                                         trace := trace s1 @ [EngineNew method False] \<rparr>
                                else s1\<lparr> priv_engineInstance := Some (new_MultipleTransition ops method),
                                         priv_currentMethod := Some method,
                                         trace := trace s1 @ [EngineNew method True] \<rparr>)
                          else s1)
                in case priv_engineInstance s2 of
                     None \<Rightarrow> Inl TypeError
                   | Some e \<Rightarrow>
                       (let e1 = eng_reset ops (state s2) (velocity s2) e;
                            s3 = s2\<lparr> trace := trace s2 @ [EngineReset (state s2) (velocity s2)] \<rparr>;
                            vel = (if velocity s3 \<noteq> None then eng_getVelocity ops e1 else None);
                            tr1 = (if velocity s3 \<noteq> None then tr\<lparr> t_velocity := vel \<rparr> else tr)
                        in Inr (s3\<lparr> velocity := vel,
                                    priv_engineInstance := Some (eng_set ops endValue tr1 e1),
                                    trace := trace s3 @ [EngineSet endValue tr1] \<rparr>)))))"

subsection \<open>set, iterate and the callbacks\<close>

text \<open>
  \<^verbatim>\<open>set\<close> (lines 143-191), \<^verbatim>\<open>iterate\<close> (lines 254-268) and the call of a callback.
  \<^verbatim>\<open>set\<close> without a transition calls its callback before it returns, and the closure
  of \<^verbatim>\<open>iterate\<close> calls \<^verbatim>\<open>iterate\<close>, which calls \<^verbatim>\<open>set\<close>: the three are mutually
  recursive. A caller's own callback is recorded in the trace; what else it does is its
  caller's business. \<^verbatim>\<open>shift\<close> on \<^verbatim>\<open>values\<close> and \<^verbatim>\<open>transitions\<close> changes the
  arrays that the closure has captured, so the closure carries the shortened arrays.
\<close>

text \<open>
  Lines 261-263: the transition of this step, and \<^verbatim>\<open>transitions\<close> as it is afterwards
  (\<^verbatim>\<open>shift\<close> takes the first element off an array, and returns \<^verbatim>\<open>undefined\<close> on an
  empty one).
\<close>

fun next_transition :: "transitions \<Rightarrow> transition option" where
  "next_transition (Shared tr) = tr"
| "next_transition (PerStep []) = None"
| "next_transition (PerStep (tr # rest)) = tr"

fun rest_transitions :: "transitions \<Rightarrow> transitions" where
  "rest_transitions (Shared tr) = Shared tr"
| "rest_transitions (PerStep []) = PerStep []"
| "rest_transitions (PerStep (tr # rest)) = PerStep rest"

text \<open>The measure under which the three functions terminate.\<close>

fun osize :: "callback option \<Rightarrow> nat" and csize :: "callback \<Rightarrow> nat" where
  "osize None = 0"
| "osize (Some c) = Suc (csize c)"
| "csize (Opaque n) = 0"
| "csize (IterCont vs ts cb) = Suc (length vs + osize cb)"

function set_t ::
    "registry \<Rightarrow> 'e engine_ops \<Rightarrow> val \<Rightarrow> transition option \<Rightarrow> callback option \<Rightarrow>
     'e transitionable \<Rightarrow> error + 'e transitionable"
  and iterate ::
    "registry \<Rightarrow> 'e engine_ops \<Rightarrow> val list \<Rightarrow> transitions \<Rightarrow> callback option \<Rightarrow>
     'e transitionable \<Rightarrow> error + 'e transitionable"
  and invoke ::
    "registry \<Rightarrow> 'e engine_ops \<Rightarrow> callback \<Rightarrow> 'e transitionable \<Rightarrow> error + 'e transitionable"
where
  "set_t transitionMethods ops endState None cb s =
     (let s1 = (case priv_state s of
                  NONE \<Rightarrow> s\<lparr> priv_state := START \<rparr>
                | END \<Rightarrow> s\<lparr> priv_state := START \<rparr>
                | UPDATE \<Rightarrow> s\<lparr> priv_state := END \<rparr>
                | START \<Rightarrow> s);
          s2 = reset endState None s1;
          s3 = (if \<not> priv_dirty s2
                then s2\<lparr> priv_dirty := True,
                         priv_state := START,
                         trace := trace s2 @ [ClockRegister, Emit ''start'' (state s2)],
                         dirtyQueue := dirtyQueue s2 @ [SetCleanup] \<rparr>
                else s2)
      in case cb of
           None \<Rightarrow> Inr s3
         | Some c \<Rightarrow> invoke transitionMethods ops c s3)"
| "set_t transitionMethods ops endState (Some tr) cb s =
     (let s1 = (if isActive s then halt s
                else s\<lparr> priv_state := START,
                        trace := trace s @ [ClockRegister, Emit ''start'' (state s)] \<rparr>);
          s2 = s1\<lparr> endStateQueue := endStateQueue s1 @ [endState],
                   transitionQueue := transitionQueue s1 @ [tr],
                   callbackQueue := callbackQueue s1 @ [cb] \<rparr>
      in loadNext transitionMethods ops s2)"
| "iterate transitionMethods ops [] trs cb s =
     (case cb of
        None \<Rightarrow> Inr s
      | Some c \<Rightarrow> invoke transitionMethods ops c s)"
| "iterate transitionMethods ops (v # vs) trs cb s =
     set_t transitionMethods ops v (next_transition trs)
       (Some (IterCont vs (rest_transitions trs) cb)) s"
| "invoke transitionMethods ops (Opaque n) s = Inr (s\<lparr> trace := trace s @ [Call n] \<rparr>)"
| "invoke transitionMethods ops (IterCont vs trs cb) s = iterate transitionMethods ops vs trs cb s"
  by pat_completeness auto
termination
  by (relation "measure (\<lambda>x. case x of
        Inl (_, _, _, _, cb, _) \<Rightarrow> 3 * osize cb - 1
      | Inr (Inl (_, _, vs, _, cb, _)) \<Rightarrow> 3 * (Suc (length vs + osize cb))
      | Inr (Inr (_, _, c, _)) \<Rightarrow> 3 * csize c + 1)") auto

subsection \<open>Sampling and the deferred closures\<close>

text \<open>
  \<^verbatim>\<open>update\<close> (lines 206-231): the ticker calls it once per tick on a registered
  instance.
\<close>

definition update :: "'e engine_ops \<Rightarrow> 'e transitionable \<Rightarrow> 'e transitionable" where
  "update ops s =
     (let s1 = s\<lparr> priv_state := UPDATE \<rparr> in
      case priv_engineInstance s1 of
        None \<Rightarrow> s1
      | Some e \<Rightarrow>
          (let st = fst (eng_get ops e);
               e1 = snd (eng_get ops e);
               s2 = s1\<lparr> priv_engineInstance := Some e1,
                        trace := trace s1 @ [Emit ''update'' st],
                        state := st \<rparr>
           in if \<not> eng_isActive ops e1
              then s2\<lparr> dirtyQueue := dirtyQueue s2 @ [UpdateTerminal] \<rparr>
              else s2))"

text \<open>
  The bodies of the two closures pushed on \<^verbatim>\<open>dirtyQueue\<close> (lines 166-169 and
  219-228), and of the closure of the constructor (lines 69-70).
\<close>

fun run_deferred ::
  "registry \<Rightarrow> 'e engine_ops \<Rightarrow> deferred \<Rightarrow> 'e transitionable \<Rightarrow> error + 'e transitionable" where
  "run_deferred transitionMethods ops SetCleanup s =
     Inr (s\<lparr> priv_dirty := False,
             priv_state := END,
             trace := trace s @ [ClockUnregister, Emit ''end'' (state s)] \<rparr>)"
| "run_deferred transitionMethods ops UpdateTerminal s =
     (let s1 = s\<lparr> priv_state := END,
                   trace := trace s @ [ClockUnregister, Emit ''end'' (state s)] \<rparr>
      in case priv_callback s1 of
           None \<Rightarrow> Inr s1
         | Some c \<Rightarrow> invoke transitionMethods ops c (s1\<lparr> priv_callback := None \<rparr>))"

definition run_nextTick ::
  "registry \<Rightarrow> 'e engine_ops \<Rightarrow> val \<Rightarrow> 'e transitionable \<Rightarrow> error + 'e transitionable" where
  "run_nextTick transitionMethods ops start s =
     (if priv_state s = NONE \<or> priv_state s = END
      then set_t transitionMethods ops start None None s
      else Inr s)"

section \<open>Vocabulary of the properties\<close>

text \<open>
  What holds of an instance between two calls: the three queues are empty (\<^verbatim>\<open>set\<close>
  pushes one entry on each and the loader takes it off at once), and an engine class is
  recorded exactly when an engine exists.
\<close>

definition consistent :: "'e transitionable \<Rightarrow> bool" where
  "consistent s =
     (endStateQueue s = [] \<and> transitionQueue s = [] \<and> callbackQueue s = [] \<and>
      (priv_currentMethod s = None) = (priv_engineInstance s = None))"




text \<open>The payloads of the \<^verbatim>\<open>end\<close> events of a trace, and the callbacks called.\<close>

fun end_events :: "event list \<Rightarrow> val list" where
  "end_events [] = []"
| "end_events (Emit name v # es) = (if name = ''end'' then v # end_events es else end_events es)"
| "end_events (e # es) = end_events es"

fun calls :: "event list \<Rightarrow> nat list" where
  "calls [] = []"
| "calls (Call n # es) = n # calls es"
| "calls (e # es) = calls es"

text \<open>The end states of the \<^verbatim>\<open>set\<close> commands sent to engines.\<close>

fun engine_sets :: "event list \<Rightarrow> val list" where
  "engine_sets [] = []"
| "engine_sets (EngineSet v tr # es) = v # engine_sets es"
| "engine_sets (e # es) = engine_sets es"

text \<open>How many closures of \<^verbatim>\<open>update\<close> are waiting on the deferred queue.\<close>

definition pending_terminals :: "'e transitionable \<Rightarrow> nat" where
  "pending_terminals s = count_list (dirtyQueue s) UpdateTerminal"

subsection \<open>A concrete engine for the examples\<close>

text \<open>
  An engine that reaches its target at the second sample after \<^verbatim>\<open>set\<close>: the first
  sample returns the value it was reset to. It only serves to run the instance on
  concrete inputs; every theorem below is about an arbitrary engine.
\<close>

record stepper =
  wrapped :: bool
  pos :: val
  script :: "val list"

definition stepper_ops :: "stepper engine_ops" where
  "stepper_ops =
     \<lparr> new_method = (\<lambda>m. \<lparr> wrapped = False, pos = Num 0, script = [] \<rparr>),
       new_MultipleTransition = (\<lambda>m. \<lparr> wrapped = True, pos = Num 0, script = [] \<rparr>),
       SUPPORTS_MULTIPLE = (\<lambda>m. case m of TweenTransition \<Rightarrow> \<infinity> | EngineClass k \<Rightarrow> enat k),
       eng_reset = (\<lambda>v vel e. e\<lparr> pos := v, script := [] \<rparr>),
       eng_getVelocity = (\<lambda>e. Some (Num 0)),
       eng_set = (\<lambda>v tr e. e\<lparr> script := [pos e, v] \<rparr>),
       eng_get = (\<lambda>e. case script e of
                          [] \<Rightarrow> (pos e, e)
                        | x # xs \<Rightarrow> (x, e\<lparr> pos := x, script := xs \<rparr>)),
       eng_isActive = (\<lambda>e. script e \<noteq> []) \<rparr>"

definition spring_registry :: registry where
  "spring_registry = [''spring'' \<mapsto> EngineClass 3]"

definition linear_100 :: transition where
  "linear_100 = \<lparr> duration = Some 100, curve = Some (CurveName ''linear''), t_velocity = None \<rparr>"

text \<open>
  A fresh instance; the same after \<^verbatim>\<open>set(5, {duration: 100, curve: 'linear'})\<close>; and
  after one \<^verbatim>\<open>update()\<close>, in flight.
\<close>

definition fresh :: "stepper transitionable" where
  "fresh = Transitionable None"

definition started :: "stepper transitionable" where
  "started =
     \<lparr> transitionQueue = [], endStateQueue = [], callbackQueue = [],
       state = Num 0, velocity = None, priv_callback = None,
       priv_engineInstance = Some \<lparr> wrapped = False, pos = Num 0, script = [Num 0, Num 5] \<rparr>,
       priv_currentMethod = Some TweenTransition, priv_state = START, priv_dirty = False,
       nextTickQueue = [], dirtyQueue = [],
       trace = [ClockRegister, Emit ''start'' (Num 0), EngineNew TweenTransition False,
                EngineReset (Num 0) None, EngineSet (Num 5) linear_100] \<rparr>"

definition in_flight :: "stepper transitionable" where
  "in_flight =
     \<lparr> transitionQueue = [], endStateQueue = [], callbackQueue = [],
       state = Num 0, velocity = None, priv_callback = None,
       priv_engineInstance = Some \<lparr> wrapped = False, pos = Num 0, script = [Num 5] \<rparr>,
       priv_currentMethod = Some TweenTransition, priv_state = UPDATE, priv_dirty = False,
       nextTickQueue = [], dirtyQueue = [],
       trace = [ClockRegister, Emit ''start'' (Num 0), EngineNew TweenTransition False,
                EngineReset (Num 0) None, EngineSet (Num 5) linear_100,
                Emit ''update'' (Num 0)] \<rparr>"

text \<open>The instance in flight after an interrupting \<^verbatim>\<open>set(7)\<close>.\<close>

definition interrupted :: "stepper transitionable" where
  "interrupted =
     \<lparr> transitionQueue = [], endStateQueue = [], callbackQueue = [],
       state = Num 7, velocity = None, priv_callback = None,
       priv_engineInstance = None,
       priv_currentMethod = None, priv_state = START, priv_dirty = True,
       nextTickQueue = [], dirtyQueue = [SetCleanup],
       trace = [ClockRegister, Emit ''start'' (Num 0), EngineNew TweenTransition False,
                EngineReset (Num 0) None, EngineSet (Num 5) linear_100,
                Emit ''update'' (Num 0), EngineReset (Num 7) None, ClockRegister,
                Emit ''start'' (Num 7)] \<rparr>"





text \<open>A list of calls that are all commands to an engine.\<close>

definition engine_commands :: "event list \<Rightarrow> bool" where
  "engine_commands es =
     list_all (\<lambda>e. case e of EngineNew m w \<Rightarrow> True | EngineReset v vel \<Rightarrow> True
                          | EngineSet v tr \<Rightarrow> True | _ \<Rightarrow> False) es"


text \<open>The instance in flight with a caller's callback pending.\<close>

definition awaited :: "stepper transitionable" where
  "awaited = in_flight\<lparr> priv_callback := Some (Opaque 9) \<rparr>"

section \<open>The deferred phase\<close>

text \<open>
  Modelled from the spec: the deferred-phase queue (\<^verbatim>\<open>famous/core/queues/dirtyQueue\<close>),
  whose code is not among the sources. Section 6 of the spec: \<^verbatim>\<open>push(fn)\<close> runs
  \<^verbatim>\<open>fn\<close> exactly once, after the current synchronous call stack unwinds but before the
  next external tick, in FIFO order. The phase runs the closures from the front until
  none is left, those pushed meanwhile included.
\<close>

function flush ::
  "registry \<Rightarrow> 'e engine_ops \<Rightarrow> 'e transitionable \<Rightarrow> error + 'e transitionable" where
  "flush transitionMethods ops s =
     (case dirtyQueue s of
        [] \<Rightarrow> Inr s
      | d # ds \<Rightarrow>
          (case run_deferred transitionMethods ops d (s\<lparr> dirtyQueue := ds \<rparr>) of
             Inl e \<Rightarrow> Inl e
           | Inr s' \<Rightarrow> flush transitionMethods ops s'))"
  by pat_completeness auto
termination
proof (relation "inv_image (less_than <*lex*> less_than)
         (\<lambda>(tm, ops, s). (pending_terminals s, length (dirtyQueue s)))")
  show "wf (inv_image (less_than <*lex*> less_than)
         (\<lambda>(tm, ops, s). (pending_terminals s, length (dirtyQueue s))))"
    by (intro wf_inv_image wf_lex_prod wf_less_than)
next
  fix tm :: registry and ops :: "'e engine_ops" and s :: "'e transitionable"
    and d ds s'
  assume q: "dirtyQueue s = d # ds"
    and r: "run_deferred tm ops d (s\<lparr> dirtyQueue := ds \<rparr>) = Inr s'"
  txt \<open>
    Calling a callback, and so \<^verbatim>\<open>set\<close> and \<^verbatim>\<open>iterate\<close>, never pushes the closure
    of \<^verbatim>\<open>update\<close>: the pending ones are as many afterwards as before.
  \<close>
  have loader: "dirtyQueue y = dirtyQueue x"
    if "loadNext rg (eo :: 'e engine_ops) x = Inr y" for rg eo x y
    using that
    by (auto simp: loadNext_def Let_def split: list.splits option.splits if_splits)
  have kept:
    "\<forall>y. set_t rg eo v tr cb x = Inr y \<longrightarrow> pending_terminals y = pending_terminals x"
    "\<forall>y. iterate rg eo vs trs cb x = Inr y \<longrightarrow> pending_terminals y = pending_terminals x"
    "\<forall>y. invoke rg eo c x = Inr y \<longrightarrow> pending_terminals y = pending_terminals x"
    for rg and eo :: "'e engine_ops" and v tr cb x vs trs c
  proof (induction rg eo v tr cb x and rg eo vs trs cb x and rg eo c x
         rule: set_t_iterate_invoke.induct)
    case (1 rg eo endState cb x)
    then show ?case
      by (auto simp: pending_terminals_def reset_def Let_def split: option.splits STATE.splits)
  next
    case (2 rg eo endState tr cb x)
    then show ?case
      by (auto simp: pending_terminals_def halt_def Let_def dest!: loader)
  next
    case (3 rg eo trs cb x)
    then show ?case by (auto split: option.splits)
  next
    case (4 rg eo v vs trs cb x)
    then show ?case by auto
  next
    case (5 rg eo n x)
    then show ?case by (auto simp: pending_terminals_def)
  next
    case (6 rg eo vs trs cb x)
    then show ?case by auto
  qed
  show "((tm, ops, s'), (tm, ops, s)) \<in> inv_image (less_than <*lex*> less_than)
         (\<lambda>(tm, ops, s). (pending_terminals s, length (dirtyQueue s)))"
  proof (cases d)
    case SetCleanup
    with q r show ?thesis by (auto simp: pending_terminals_def)
  next
    case UpdateTerminal
    with r have "pending_terminals s' = pending_terminals (s\<lparr> dirtyQueue := ds \<rparr>)"
      using kept(3) by (auto simp: Let_def pending_terminals_def split: option.splits)
    with q UpdateTerminal show ?thesis by (auto simp: pending_terminals_def)
  qed
qed

declare flush.simps [simp del]

text \<open>
  Modelled from the spec: the ticker (\<^verbatim>\<open>famous/core/Clock\<close>), whose code is not among
  the sources. Section 6 of the spec: it calls \<^verbatim>\<open>update()\<close> once per frame on a
  registered instance; the deferred phase follows before the next tick.
\<close>

definition tick ::
  "registry \<Rightarrow> 'e engine_ops \<Rightarrow> 'e transitionable \<Rightarrow> error + 'e transitionable" where
  "tick transitionMethods ops s = flush transitionMethods ops (update ops s)"

text \<open>A number of ticks in a row.\<close>

fun ticks ::
  "registry \<Rightarrow> 'e engine_ops \<Rightarrow> nat \<Rightarrow> 'e transitionable \<Rightarrow> error + 'e transitionable" where
  "ticks tm ops 0 s = Inr s"
| "ticks tm ops (Suc n) s =
     (case tick tm ops s of Inl e \<Rightarrow> Inl e | Inr s' \<Rightarrow> ticks tm ops n s')"

text \<open>
  A run on the concrete engine: \<^verbatim>\<open>iterate([1, 2, 3], transition, callback)\<close> on a new
  instance, then \<open>n\<close> ticks; what is observed is the end states sent to the engine,
  the callbacks called and the state.
\<close>

definition observed_run :: "nat \<Rightarrow> error + (val list \<times> nat list \<times> val)" where
  "observed_run n =
     (case iterate spring_registry stepper_ops [Num 1, Num 2, Num 3]
             (Shared (Some linear_100)) (Some (Opaque 9)) fresh of
        Inl e \<Rightarrow> Inl e
      | Inr s1 \<Rightarrow>
          (case ticks spring_registry stepper_ops n s1 of
             Inl e \<Rightarrow> Inl e
           | Inr s \<Rightarrow> Inr (engine_sets (trace s), calls (trace s), state s)))"

section \<open>Auxiliary facts\<close>

lemma end_events_append: "end_events (xs @ ys) = end_events xs @ end_events ys"
  by (induction xs rule: end_events.induct) auto

lemma calls_append: "calls (xs @ ys) = calls xs @ calls ys"
  by (induction xs rule: calls.induct) auto

lemma engine_sets_append: "engine_sets (xs @ ys) = engine_sets xs @ engine_sets ys"
  by (induction xs rule: engine_sets.induct) auto

text \<open>The example states are the ones the calls produce.\<close>

lemma started_reached:
  "set_t spring_registry stepper_ops (Num 5) (Some linear_100) None fresh = Inr started"
  by (simp add: fresh_def Transitionable_def started_def isActive_def loadNext_def
        select_method_def linear_100_def spring_registry_def stepper_ops_def Let_def)

lemma in_flight_reached: "update stepper_ops started = in_flight"
  by (simp add: update_def started_def in_flight_def stepper_ops_def Let_def)

lemma awaited_reached:
  "\<exists>s. set_t spring_registry stepper_ops (Num 5) (Some linear_100) (Some (Opaque 9)) fresh = Inr s \<and>
     update stepper_ops s = awaited"
  by (simp add: fresh_def Transitionable_def awaited_def in_flight_def isActive_def loadNext_def
        select_method_def linear_100_def spring_registry_def stepper_ops_def update_def Let_def)


lemma consistent_halt: "consistent (halt s)"
  by (simp add: consistent_def halt_def Let_def)

lemma consistent_reset: "consistent (reset v vel s)"
  by (simp add: consistent_def reset_def)

lemma consistent_update: "consistent s \<Longrightarrow> consistent (update ops s)"
  by (auto simp: consistent_def update_def Let_def split: option.splits)

lemma loadNext_empty: "endStateQueue s = [] \<Longrightarrow> loadNext tm ops s = Inr s"
  by (simp add: loadNext_def)

lemma loadNext_front:
  assumes "endStateQueue s = [v]" "transitionQueue s = [tr]" "callbackQueue s = [cb]"
    and "(priv_currentMethod s = None) = (priv_engineInstance s = None)"
  shows "\<exists>s'. loadNext tm ops s = Inr s' \<and> consistent s' \<and>
           priv_currentMethod s' = Some (select_method tm tr) \<and> priv_callback s' = cb \<and>
           priv_state s' = priv_state s \<and> priv_dirty s' = priv_dirty s \<and>
           dirtyQueue s' = dirtyQueue s \<and> state s' = state s \<and>
           calls (trace s') = calls (trace s) \<and>
           end_events (trace s') = end_events (trace s) \<and>
           engine_sets (trace s') = engine_sets (trace s) @ [v]"
  using assms
  by (cases "priv_engineInstance s")
     (auto simp: loadNext_def Let_def consistent_def calls_append end_events_append
                 engine_sets_append)

lemma set_transition_ok:
  assumes "consistent s"
  shows "\<exists>s'. set_t tm ops v (Some tr) cb s = Inr s' \<and> consistent s' \<and>
           priv_currentMethod s' = Some (select_method tm tr) \<and> priv_callback s' = cb \<and>
           dirtyQueue s' = dirtyQueue s \<and> priv_dirty s' = priv_dirty s \<and>
           state s' = state s \<and>
           calls (trace s') = calls (trace s) \<and>
           end_events (trace s') = end_events (trace s) \<and>
           engine_sets (trace s') = engine_sets (trace s) @ [v]"
proof (cases "isActive s")
  case True
  let ?s2 = "(halt s)\<lparr> endStateQueue := endStateQueue (halt s) @ [v],
                transitionQueue := transitionQueue (halt s) @ [tr],
                callbackQueue := callbackQueue (halt s) @ [cb] \<rparr>"
  have "\<exists>s'. loadNext tm ops ?s2 = Inr s' \<and> consistent s' \<and>
           priv_currentMethod s' = Some (select_method tm tr) \<and> priv_callback s' = cb \<and>
           priv_state s' = priv_state ?s2 \<and> priv_dirty s' = priv_dirty ?s2 \<and>
           dirtyQueue s' = dirtyQueue ?s2 \<and> state s' = state ?s2 \<and>
           calls (trace s') = calls (trace ?s2) \<and>
           end_events (trace s') = end_events (trace ?s2) \<and>
           engine_sets (trace s') = engine_sets (trace ?s2) @ [v]"
    by (rule loadNext_front) (simp_all add: halt_def Let_def)
  with True show ?thesis
    by (auto simp: Let_def halt_def get_def calls_append end_events_append engine_sets_append
             split: option.splits)
next
  case False
  let ?s2 = "s\<lparr> priv_state := START,
                trace := trace s @ [ClockRegister, Emit ''start'' (state s)],
                endStateQueue := endStateQueue s @ [v],
                transitionQueue := transitionQueue s @ [tr],
                callbackQueue := callbackQueue s @ [cb] \<rparr>"
  have "\<exists>s'. loadNext tm ops ?s2 = Inr s' \<and> consistent s' \<and>
           priv_currentMethod s' = Some (select_method tm tr) \<and> priv_callback s' = cb \<and>
           priv_state s' = priv_state ?s2 \<and> priv_dirty s' = priv_dirty ?s2 \<and>
           dirtyQueue s' = dirtyQueue ?s2 \<and> state s' = state ?s2 \<and>
           calls (trace s') = calls (trace ?s2) \<and>
           end_events (trace s') = end_events (trace ?s2) \<and>
           engine_sets (trace s') = engine_sets (trace ?s2) @ [v]"
    using assms by (intro loadNext_front) (simp_all add: consistent_def)
  with False show ?thesis
    by (auto simp: Let_def calls_append end_events_append engine_sets_append)
qed

lemma callbacks_consistent:
  "consistent s \<longrightarrow> (\<exists>s'. set_t tm ops v tr cb s = Inr s' \<and> consistent s')"
  "consistent s \<longrightarrow> (\<exists>s'. iterate tm ops vs trs cb s = Inr s' \<and> consistent s')"
  "consistent s \<longrightarrow> (\<exists>s'. invoke tm ops c s = Inr s' \<and> consistent s')"
proof (induction tm ops v tr cb s and tm ops vs trs cb s and tm ops c s
       rule: set_t_iterate_invoke.induct)
  case (1 tm ops endState cb s)
  show ?case
  proof (cases cb)
    case None
    then show ?thesis by (simp add: Let_def consistent_def reset_def)
  next
    case (Some c)
    then show ?thesis using 1 by (simp add: Let_def consistent_def reset_def)
  qed
next
  case (2 tm ops endState tr cb s)
  show ?case using set_transition_ok [of s tm ops endState tr cb] by blast
next
  case (3 tm ops trs cb s)
  then show ?case by (cases cb) auto
next
  case (4 tm ops v vs trs cb s)
  then show ?case by simp
next
  case (5 tm ops n s)
  then show ?case by (simp add: consistent_def)
next
  case (6 tm ops vs trs cb s)
  then show ?case by simp
qed

lemma run_deferred_consistent:
  "consistent s \<Longrightarrow> \<exists>s'. run_deferred tm ops d s = Inr s' \<and> consistent s'"
proof (cases d)
  case SetCleanup
  assume "consistent s"
  with SetCleanup show ?thesis by (simp add: consistent_def)
next
  case UpdateTerminal
  assume c: "consistent s"
  show ?thesis
  proof (cases "priv_callback s")
    case None
    with c UpdateTerminal show ?thesis by (simp add: consistent_def Let_def)
  next
    case (Some k)
    let ?s1 = "s\<lparr> priv_state := END,
                   trace := trace s @ [ClockUnregister, Emit ''end'' (state s)],
                   priv_callback := None \<rparr>"
    from c have "consistent ?s1" by (simp add: consistent_def)
    with callbacks_consistent(3) [of ?s1 tm ops k] Some UpdateTerminal show ?thesis
      by (simp add: Let_def)
  qed
qed

lemma flush_consistent:
  "consistent s \<Longrightarrow> \<exists>s'. flush tm ops s = Inr s' \<and> consistent s' \<and> dirtyQueue s' = []"
proof (induction tm ops s rule: flush.induct)
  case (1 tm ops s)
  show ?case
  proof (cases "dirtyQueue s")
    case Nil
    with 1 show ?thesis by (simp add: flush.simps)
  next
    case (Cons d ds)
    from 1(2) have "consistent (s\<lparr> dirtyQueue := ds \<rparr>)" by (simp add: consistent_def)
    then obtain s1 where r: "run_deferred tm ops d (s\<lparr> dirtyQueue := ds \<rparr>) = Inr s1" "consistent s1"
      using run_deferred_consistent by blast
    with 1(1) [OF Cons r(1)] Cons show ?thesis
      by (subst flush.simps) simp
  qed
qed


lemma loadNext_trace:
  assumes "endStateQueue s = [v]" "transitionQueue s = [tr]"
    and "(priv_currentMethod s = None) = (priv_engineInstance s = None)"
  shows "\<exists>s' cmds. loadNext tm ops s = Inr s' \<and> trace s' = trace s @ cmds \<and> engine_commands cmds \<and>
           priv_state s' = priv_state s"
  using assms
  by (cases "priv_engineInstance s")
     (auto simp: loadNext_def Let_def engine_commands_def)








section \<open>The registry\<close>



section \<open>halt\<close>

text \<open>
  Claim C10. \<^verbatim>\<open>halt\<close> is idempotent: a second \<^verbatim>\<open>halt()\<close> right after the first
  leaves every field of the instance, and its footprint, as the first left them.
\<close>

theorem halt_idempotent: "halt (halt s) = halt s"
  by (simp add: halt_def get_def Let_def)




section \<open>Instantaneous set\<close>

text \<open>
  Claim C2, as stated, fails on the instance in flight: its activity state is UPDATE,
  and when \<^verbatim>\<open>set(7)\<close> returns the activity state is START, not END.
\<close>

theorem set_instant_counterexample:
  "priv_state in_flight = UPDATE \<and>
   set_t spring_registry stepper_ops (Num 7) None None in_flight = Inr interrupted \<and>
   priv_state interrupted = START"
  by (simp add: in_flight_def interrupted_def reset_def Let_def)

text \<open>
  Claim C2, amended. An instantaneous \<^verbatim>\<open>set(endState)\<close> returns with the activity
  state START whenever the instance was not yet marked dirty, whatever the state before
  (UPDATE included); it has then pushed the cleanup closure, which sets END in the
  deferred phase. Only when the instance was already dirty is the state at return the
  one of the switch: NONE to START, END to START, UPDATE to END, START unchanged. In
  both cases \<^verbatim>\<open>set\<close> calls no callback but its own argument.
\<close>

theorem set_instant_activity:
  "\<exists>s'. set_t tm ops v None (map_option Opaque cb) s = Inr s' \<and>
     priv_state s' =
       (if priv_dirty s
        then (case priv_state s of NONE \<Rightarrow> START | END \<Rightarrow> START | UPDATE \<Rightarrow> END | START \<Rightarrow> START)
        else START) \<and>
     dirtyQueue s' = (if priv_dirty s then dirtyQueue s else dirtyQueue s @ [SetCleanup]) \<and>
     priv_dirty s' \<and> state s' = v \<and>
     calls (trace s') = calls (trace s) @ (case cb of None \<Rightarrow> [] | Some n \<Rightarrow> [n]) \<and>
     run_deferred tm ops SetCleanup s' =
       Inr (s'\<lparr> priv_dirty := False, priv_state := END,
                trace := trace s' @ [ClockUnregister, Emit ''end'' v] \<rparr>)"
  by (cases cb; cases "priv_state s"; cases "priv_engineInstance s")
     (simp_all add: reset_def Let_def calls_append)

section \<open>The loader\<close>





section \<open>set with a transition\<close>

text \<open>
  Claim C5. \<^verbatim>\<open>isActive()\<close> is true exactly in the activity state UPDATE. A
  \<^verbatim>\<open>set(endState, transition)\<close> on an active instance first calls \<^verbatim>\<open>halt()\<close>,
  which discards the velocity and the queued entries; on an instance that is not
  active it sets the activity state to START, registers with the ticker and emits
  \<^verbatim>\<open>start\<close>. In both cases the loader runs on the instance so prepared, with the new
  triple appended to the queues: an active instance stays in UPDATE with no velocity
  and only engine commands added to its trace, an inactive one ends in START with the
  registration and the \<^verbatim>\<open>start\<close> event before the engine commands.
\<close>

theorem set_transition_prelude:
  "isActive s = (priv_state s = UPDATE) \<and>
   (isActive s \<longrightarrow>
      set_t tm ops v (Some tr) cb s =
        loadNext tm ops ((halt s)\<lparr> endStateQueue := [v], transitionQueue := [tr],
                                   callbackQueue := [cb] \<rparr>) \<and>
      velocity (halt s) = None \<and> endStateQueue (halt s) = [] \<and>
      transitionQueue (halt s) = [] \<and> callbackQueue (halt s) = [] \<and>
      (\<exists>s' cmds. set_t tm ops v (Some tr) cb s = Inr s' \<and>
         priv_state s' = UPDATE \<and> velocity s' = None \<and>
         trace s' = trace s @ cmds \<and> engine_commands cmds)) \<and>
   (\<not> isActive s \<longrightarrow>
      set_t tm ops v (Some tr) cb s =
        loadNext tm ops (s\<lparr> priv_state := START,
                             trace := trace s @ [ClockRegister, Emit ''start'' (state s)],
                             endStateQueue := endStateQueue s @ [v],
                             transitionQueue := transitionQueue s @ [tr],
                             callbackQueue := callbackQueue s @ [cb] \<rparr>)) \<and>
   (\<not> isActive s \<and> consistent s \<longrightarrow>
      (\<exists>s' cmds. set_t tm ops v (Some tr) cb s = Inr s' \<and>
         priv_state s' = START \<and>
         trace s' = trace s @ [ClockRegister, Emit ''start'' (state s)] @ cmds \<and>
         engine_commands cmds))"
proof -
  have active: "isActive s \<longrightarrow>
      (\<exists>s' cmds. set_t tm ops v (Some tr) cb s = Inr s' \<and>
         priv_state s' = UPDATE \<and> velocity s' = None \<and>
         trace s' = trace s @ cmds \<and> engine_commands cmds)"
    by (cases "priv_engineInstance s")
       (auto simp: isActive_def halt_def get_def loadNext_def Let_def engine_commands_def)
  have idle: "\<not> isActive s \<and> consistent s \<longrightarrow>
      (\<exists>s' cmds. set_t tm ops v (Some tr) cb s = Inr s' \<and>
         priv_state s' = START \<and>
         trace s' = trace s @ [ClockRegister, Emit ''start'' (state s)] @ cmds \<and>
         engine_commands cmds)"
  proof (intro impI, elim conjE)
    assume a: "\<not> isActive s" and c: "consistent s"
    let ?s2 = "s\<lparr> priv_state := START,
                trace := trace s @ [ClockRegister, Emit ''start'' (state s)],
                endStateQueue := endStateQueue s @ [v],
                transitionQueue := transitionQueue s @ [tr],
                callbackQueue := callbackQueue s @ [cb] \<rparr>"
    have "\<exists>s' cmds. loadNext tm ops ?s2 = Inr s' \<and> trace s' = trace ?s2 @ cmds \<and>
            engine_commands cmds \<and> priv_state s' = priv_state ?s2"
      using c by (intro loadNext_trace) (simp_all add: consistent_def)
    with a show "\<exists>s' cmds. set_t tm ops v (Some tr) cb s = Inr s' \<and>
         priv_state s' = START \<and>
         trace s' = trace s @ [ClockRegister, Emit ''start'' (state s)] @ cmds \<and>
         engine_commands cmds"
      by (auto simp: Let_def)
  qed
  from active idle show ?thesis
    by (simp add: isActive_def halt_def Let_def)
qed

text \<open>The instance in flight is active; the new instance is not.\<close>

theorem set_transition_prelude_witness:
  "(\<exists>s' cmds. set_t spring_registry stepper_ops (Num 9) (Some linear_100) None in_flight = Inr s' \<and>
      priv_state s' = UPDATE \<and> velocity s' = None \<and>
      trace s' = trace in_flight @ cmds \<and> engine_commands cmds) \<and>
   (\<exists>s' cmds. set_t spring_registry stepper_ops (Num 9) (Some linear_100) None fresh = Inr s' \<and>
      priv_state s' = START \<and>
      trace s' = trace fresh @ [ClockRegister, Emit ''start'' (Num 0)] @ cmds \<and>
      engine_commands cmds)"
proof -
  have a: "isActive in_flight"
    by (simp add: isActive_def in_flight_def)
  have i: "\<not> isActive (fresh :: stepper transitionable) \<and> consistent (fresh :: stepper transitionable)"
    by (simp add: isActive_def fresh_def Transitionable_def consistent_def)
  have z: "state (fresh :: stepper transitionable) = Num 0"
    by (simp add: fresh_def Transitionable_def)
  from set_transition_prelude [of in_flight spring_registry stepper_ops "Num 9" linear_100 None] a
       set_transition_prelude [of fresh spring_registry stepper_ops "Num 9" linear_100 None] i z
  show ?thesis by metis
qed

section \<open>update and the terminal sequence\<close>

text \<open>
  Claim C4. When the engine reports after the sample that it is no longer active,
  \<^verbatim>\<open>update()\<close> stores and publishes the sample, leaves the activity state at UPDATE
  and pushes the terminal closure on the deferred queue: it neither unregisters, nor
  emits \<^verbatim>\<open>end\<close>, nor calls the callback. The closure, when it runs, sets the activity
  state to END, unregisters the instance, emits \<^verbatim>\<open>end\<close> with the state, and calls a
  pending callback after having cleared it; run a second time it calls nothing.
\<close>

theorem update_defers_terminal:
  assumes "priv_engineInstance s = Some e" and "\<not> eng_isActive ops (snd (eng_get ops e))"
  shows
    "update ops s =
       s\<lparr> priv_state := UPDATE,
          priv_engineInstance := Some (snd (eng_get ops e)),
          trace := trace s @ [Emit ''update'' (fst (eng_get ops e))],
          state := fst (eng_get ops e),
          dirtyQueue := dirtyQueue s @ [UpdateTerminal] \<rparr> \<and>
     (\<forall>x. run_deferred tm ops UpdateTerminal x =
        (case priv_callback x of
           None \<Rightarrow> Inr (x\<lparr> priv_state := END,
                          trace := trace x @ [ClockUnregister, Emit ''end'' (state x)] \<rparr>)
         | Some c \<Rightarrow> invoke tm ops c
                      (x\<lparr> priv_state := END,
                         trace := trace x @ [ClockUnregister, Emit ''end'' (state x)],
                         priv_callback := None \<rparr>))) \<and>
     (\<forall>x n. priv_callback x = Some (Opaque n) \<longrightarrow>
        (\<exists>x1 x2. run_deferred tm ops UpdateTerminal x = Inr x1 \<and>
           priv_state x1 = END \<and> priv_callback x1 = None \<and>
           trace x1 = trace x @ [ClockUnregister, Emit ''end'' (state x), Call n] \<and>
           run_deferred tm ops UpdateTerminal x1 = Inr x2 \<and>
           calls (trace x2) = calls (trace x1)))"
proof -
  from assms have u: "update ops s =
       s\<lparr> priv_state := UPDATE,
          priv_engineInstance := Some (snd (eng_get ops e)),
          trace := trace s @ [Emit ''update'' (fst (eng_get ops e))],
          state := fst (eng_get ops e),
          dirtyQueue := dirtyQueue s @ [UpdateTerminal] \<rparr>"
    by (simp add: update_def Let_def)
  have r: "\<forall>x. run_deferred tm ops UpdateTerminal x =
        (case priv_callback x of
           None \<Rightarrow> Inr (x\<lparr> priv_state := END,
                          trace := trace x @ [ClockUnregister, Emit ''end'' (state x)] \<rparr>)
         | Some c \<Rightarrow> invoke tm ops c
                      (x\<lparr> priv_state := END,
                         trace := trace x @ [ClockUnregister, Emit ''end'' (state x)],
                         priv_callback := None \<rparr>))"
    by (simp add: Let_def split: option.splits)
  have o: "\<forall>x n. priv_callback x = Some (Opaque n) \<longrightarrow>
        (\<exists>x1 x2. run_deferred tm ops UpdateTerminal x = Inr x1 \<and>
           priv_state x1 = END \<and> priv_callback x1 = None \<and>
           trace x1 = trace x @ [ClockUnregister, Emit ''end'' (state x), Call n] \<and>
           run_deferred tm ops UpdateTerminal x1 = Inr x2 \<and>
           calls (trace x2) = calls (trace x1))"
    by (simp add: Let_def calls_append)
  from u r o show ?thesis by blast
qed

text \<open>
  The instance in flight, with a callback pending, at the sample that reaches the
  target.
\<close>

theorem update_defers_terminal_witness:
  "priv_state (update stepper_ops awaited) = UPDATE \<and>
   state (update stepper_ops awaited) = Num 5 \<and>
   dirtyQueue (update stepper_ops awaited) = [UpdateTerminal] \<and>
   calls (trace (update stepper_ops awaited)) = [] \<and>
   end_events (trace (update stepper_ops awaited)) = [] \<and>
   (\<exists>x1. run_deferred spring_registry stepper_ops UpdateTerminal (update stepper_ops awaited) = Inr x1 \<and>
      priv_state x1 = END \<and> priv_callback x1 = None \<and>
      calls (trace x1) = [9] \<and> end_events (trace x1) = [Num 5])"
proof -
  let ?e = "\<lparr> wrapped = False, pos = Num 0, script = [Num 5] \<rparr>"
  have e: "priv_engineInstance awaited = Some ?e"
    by (simp add: awaited_def in_flight_def)
  have d: "\<not> eng_isActive stepper_ops (snd (eng_get stepper_ops ?e))"
    by (simp add: stepper_ops_def)
  note t = update_defers_terminal [OF e d, of spring_registry]
  from t have u: "update stepper_ops awaited =
       awaited\<lparr> priv_state := UPDATE,
          priv_engineInstance := Some (snd (eng_get stepper_ops ?e)),
          trace := trace awaited @ [Emit ''update'' (fst (eng_get stepper_ops ?e))],
          state := fst (eng_get stepper_ops ?e),
          dirtyQueue := dirtyQueue awaited @ [UpdateTerminal] \<rparr>"
    by blast
  have c: "priv_callback (update stepper_ops awaited) = Some (Opaque 9)"
    by (simp add: u) (simp add: awaited_def)
  from t c obtain x1 where x1: "run_deferred spring_registry stepper_ops UpdateTerminal
        (update stepper_ops awaited) = Inr x1"
      "priv_state x1 = END" "priv_callback x1 = None"
      "trace x1 = trace (update stepper_ops awaited) @
         [ClockUnregister, Emit ''end'' (state (update stepper_ops awaited)), Call 9]"
    by blast
  have p: "priv_state (update stepper_ops awaited) = UPDATE \<and>
   state (update stepper_ops awaited) = Num 5 \<and>
   dirtyQueue (update stepper_ops awaited) = [UpdateTerminal] \<and>
   calls (trace (update stepper_ops awaited)) = [] \<and>
   end_events (trace (update stepper_ops awaited)) = []"
    by (simp add: u) (simp add: awaited_def in_flight_def stepper_ops_def)
  with x1 show ?thesis
    by (auto simp: calls_append end_events_append)
qed

section \<open>Coalesced instantaneous sets\<close>



section \<open>iterate\<close>



text \<open>
  On the concrete engine a transition completes at its second sample: after five ticks
  the three end states have been sent and the callback has not been called, the sixth
  tick calls it, and later ticks do not call it again.
\<close>

lemma observed_run_example:
  "observed_run 5 = Inr ([Num 1, Num 2, Num 3], [], Num 2) \<and>
   observed_run 6 = Inr ([Num 1, Num 2, Num 3], [9], Num 3) \<and>
   observed_run 9 = Inr ([Num 1, Num 2, Num 3], [9], Num 3)"
  by code_simp

end
